theory Spec2Isabelle
  imports Main "HOL-Library.AList"
begin

section \<open>Python values, exceptions and results\<close>

text \<open>
  The engine moves untyped Python values around: \<open>None\<close>, the \<open>missing\<close> sentinel of
  \<^verbatim>\<open>utils.py\<close>, scalars, lists, mappings (insertion-ordered, as Python dicts are),
  plain objects with attributes, exception instances (the error mapping stores them) and
  result objects (a \<open>ValidationError\<close> may carry one as its \<open>msg\<close>): the class and the
  three constructor arguments.
\<close>

datatype exc_class =
    ValidationError
  | ValueError
  | TypeError
  | KeyError
  | AttributeError
  | NotImplementedError
  | OtherError string

datatype result_class = DumpResult | LoadResult

datatype pyval =
    PNone
  | PMissing
  | PBool bool
  | PInt int
  | PStr string
  | PList "pyval list"
  | PDict "(pyval \<times> pyval) list"
  | PObj "(string \<times> pyval) list"
  | PExc exc_class pyval
  | PResult result_class pyval pyval pyval

text \<open>A raised exception: its class and its payload (\<open>e.msg\<close>).\<close>

type_synonym exn = "exc_class \<times> pyval"

definition exc_val :: "exn \<Rightarrow> pyval" where
  "exc_val e = PExc (fst e) (snd e)"

text \<open>Python truthiness, as \<^verbatim>\<open>not errors\<close> and \<^verbatim>\<open>if schema\<close> use it.\<close>

fun truthy :: "pyval \<Rightarrow> bool" where
  "truthy PNone = False"
| "truthy (PBool b) = b"
| "truthy (PInt i) = (i \<noteq> 0)"
| "truthy (PStr s) = (s \<noteq> [])"
| "truthy (PList xs) = (xs \<noteq> [])"
| "truthy (PDict kvs) = (kvs \<noteq> [])"
| "truthy _ = True"

text \<open>
  \<^verbatim>\<open>d[k] = v\<close> on a dict: an existing key keeps its position, a new key goes last.
  This is \<^const>\<open>AList.update\<close>.
\<close>

definition dict_set :: "(pyval \<times> pyval) list \<Rightarrow> pyval \<Rightarrow> pyval \<Rightarrow> (pyval \<times> pyval) list" where
  "dict_set d k v = AList.update k v d"

text \<open>\<^verbatim>\<open>utils.no_processing\<close>: the identity, never raising.\<close>

definition no_processing :: "pyval \<Rightarrow> exn + pyval" where
  "no_processing v = Inr v"

text \<open>
  \<^verbatim>\<open>LoadResult\<close> is the class of \<^verbatim>\<open>utils.py\<close>: its constructor takes
  \<open>(data, errors, invalid_data)\<close> and stores them under these names, \<open>is_valid\<close> is
  \<^verbatim>\<open>not self.errors\<close>, it has no attribute \<open>valid_data\<close> and no base class.

  Modelled from the spec: \<^verbatim>\<open>DumpResult\<close> and \<^verbatim>\<open>CatalystResult\<close> are imported by
  \<^verbatim>\<open>catalyst.py\<close> from \<^verbatim>\<open>utils.py\<close> but missing there. By the spec a Result is the record
  \<open>(valid_data, errors, invalid_data)\<close> with \<open>is_valid\<close> iff \<open>errors\<close> is empty:
  \<open>DumpResult\<close> is that record (no attribute \<open>data\<close>), and it is a \<open>CatalystResult\<close>.

  A result is its class and its three constructor arguments; \<open>content\<close> is the first one.
  Reading an attribute the class does not have raises \<open>AttributeError\<close>.
\<close>

record result =
  result_cls :: result_class
  content :: pyval
  errors :: pyval
  invalid_data :: pyval

definition get_valid_data :: "result \<Rightarrow> exn + pyval" where
  "get_valid_data r =
     (if result_cls r = DumpResult then Inr (content r)
      else Inl (AttributeError, PStr ''valid_data''))"

definition get_data :: "result \<Rightarrow> exn + pyval" where
  "get_data r =
     (if result_cls r = LoadResult then Inr (content r)
      else Inl (AttributeError, PStr ''data''))"

definition is_valid :: "result \<Rightarrow> bool" where
  "is_valid r = (\<not> truthy (errors r))"

definition result_val :: "result \<Rightarrow> pyval" where
  "result_val r = PResult (result_cls r) (content r) (errors r) (invalid_data r)"

section \<open>Fields\<close>

text \<open>
  A per-direction default (\<^verbatim>\<open>Field.dump_default\<close>, \<^verbatim>\<open>Field.load_default\<close>): a plain
  value, or a zero-argument producer that the property calls; the call returns a value
  or raises.
\<close>

datatype default_opt = Plain pyval | Producer "unit \<Rightarrow> exn + pyval"

text \<open>
  \<^verbatim>\<open>Field\<close> with its \<^verbatim>\<open>Options\<close>. A formatter or parser is a callable that returns a
  value or raises; a validator returns nothing or raises (\<open>Some e\<close>).
\<close>

record field =
  name :: string
  key :: string
  formatter :: "pyval \<Rightarrow> exn + pyval"
  format_none :: bool
  dump_required :: bool
  dump_default_opt :: default_opt
  no_dump :: bool
  parser :: "pyval \<Rightarrow> exn + pyval"
  parse_none :: bool
  load_required :: bool
  load_default_opt :: default_opt
  no_load :: bool
  validators :: "(pyval \<Rightarrow> exn option) list"
  allow_none :: bool
  error_messages :: "(string \<times> string) list"

definition default_error_messages :: "(string \<times> string) list" where
  "default_error_messages =
     [(''required'', ''Missing data for required field.''),
      (''none'', ''Field may not be None.'')]"

definition unknown_error :: string where
  "unknown_error = ''Unknown error.''"

text \<open>\<^verbatim>\<open>Field(name=nm, key=ky)\<close> with every option at its class default.\<close>

definition Field :: "string \<Rightarrow> string \<Rightarrow> field" where
  "Field nm ky =
     \<lparr> name = nm, key = ky,
       formatter = no_processing, format_none = False,
       dump_required = True, dump_default_opt = Plain PMissing, no_dump = False,
       parser = no_processing, parse_none = False,
       load_required = False, load_default_opt = Plain PMissing, no_load = False,
       validators = [], allow_none = True,
       error_messages = default_error_messages \<rparr>"

text \<open>
  \<^verbatim>\<open>ErrorMessageMixin.error\<close> always raises; the model returns the exception it raises.
\<close>

definition error :: "field \<Rightarrow> string \<Rightarrow> exn" where
  "error f error_key =
     (ValidationError,
      PStr (case map_of (error_messages f) error_key of
              Some m \<Rightarrow> m | None \<Rightarrow> unknown_error))"

text \<open>
  Modelled from the spec: \<^verbatim>\<open>get_error\<close> is called by \<^verbatim>\<open>_process_one\<close> but the
  \<^verbatim>\<open>utils.py\<close> only has \<^verbatim>\<open>error\<close>. The spec has the schema "record an error
  of kind required": \<open>get_error\<close> builds the exception \<open>error\<close> would raise and returns it.
\<close>

definition get_error :: "field \<Rightarrow> string \<Rightarrow> exn" where
  "get_error f error_key = error f error_key"

fun run_validators :: "(pyval \<Rightarrow> exn option) list \<Rightarrow> pyval \<Rightarrow> exn option" where
  "run_validators [] value = None"
| "run_validators (validator # vs) value =
     (case validator value of Some e \<Rightarrow> Some e | None \<Rightarrow> run_validators vs value)"

definition field_validate :: "field \<Rightarrow> pyval \<Rightarrow> exn + pyval" where
  "field_validate f value =
     (if value = PNone then
        (if allow_none f then Inr PNone else Inl (error f ''none''))
      else
        (case run_validators (validators f) value of
           Some e \<Rightarrow> Inl e
         | None \<Rightarrow> Inr value))"

definition field_format :: "field \<Rightarrow> pyval \<Rightarrow> exn + pyval" where
  "field_format f value =
     (if value = PNone \<and> \<not> format_none f then Inr PNone
      else formatter f value)"

definition field_dump :: "field \<Rightarrow> pyval \<Rightarrow> exn + pyval" where
  "field_dump f value =
     (case field_validate f value of
        Inl e \<Rightarrow> Inl e
      | Inr _ \<Rightarrow> field_format f value)"

definition field_parse :: "field \<Rightarrow> pyval \<Rightarrow> exn + pyval" where
  "field_parse f value =
     (if value = PNone \<and> \<not> parse_none f then Inr PNone
      else parser f value)"

definition field_load :: "field \<Rightarrow> pyval \<Rightarrow> exn + pyval" where
  "field_load f value =
     (case field_parse f value of
        Inl e \<Rightarrow> Inl e
      | Inr value' \<Rightarrow>
          (case field_validate f value' of
             Inl e \<Rightarrow> Inl e
           | Inr _ \<Rightarrow> Inr value'))"

definition dump_default :: "field \<Rightarrow> exn + pyval" where
  "dump_default f = (case dump_default_opt f of Plain v \<Rightarrow> Inr v | Producer g \<Rightarrow> g ())"

definition load_default :: "field \<Rightarrow> exn + pyval" where
  "load_default f = (case load_default_opt f of Plain v \<Rightarrow> Inr v | Producer g \<Rightarrow> g ())"

section \<open>Schemas\<close>

text \<open>
  Modelled from the spec: \<^verbatim>\<open>OptionBox\<close> is imported from \<^verbatim>\<open>utils.py\<close> but missing
  there. By the spec, \<open>get(**overrides)\<close> returns the override if it is set (not
  \<open>None\<close>), else the declared default; construction applies per-instance overrides to
  the class defaults in the same way.
\<close>

definition opts_get :: "'a option \<Rightarrow> 'a \<Rightarrow> 'a" where
  "opts_get override dflt = (case override of Some v \<Rightarrow> v | None \<Rightarrow> dflt)"

record options =
  dump_method :: string
  load_method :: string
  raise_error :: bool
  all_errors :: bool
  schema :: pyval

text \<open>\<^verbatim>\<open>BaseCatalyst.Options\<close>: the class defaults.\<close>

definition BaseCatalyst_Options :: options where
  "BaseCatalyst_Options =
     \<lparr> dump_method = ''format'', load_method = ''load'',
       raise_error = False, all_errors = True, schema = PNone \<rparr>"

definition Options_init ::
  "options \<Rightarrow> pyval \<Rightarrow> bool option \<Rightarrow> bool option \<Rightarrow> string option \<Rightarrow> string option \<Rightarrow> options" where
  "Options_init dflt schema_arg raise_error_arg all_errors_arg dump_method_arg load_method_arg =
     \<lparr> dump_method = opts_get dump_method_arg (dump_method dflt),
       load_method = opts_get load_method_arg (load_method dflt),
       raise_error = opts_get raise_error_arg (raise_error dflt),
       all_errors = opts_get all_errors_arg (all_errors dflt),
       schema = (if schema_arg = PNone then schema dflt else schema_arg) \<rparr>"

text \<open>
  Modelled from the spec: the getters \<^verbatim>\<open>assign_attr_or_item_getter\<close> and
  \<^verbatim>\<open>assign_item_getter\<close> are imported from \<^verbatim>\<open>utils.py\<close> but missing there. By the
  spec, dump reads by attribute-or-mapping-key from an arbitrary object, load reads by
  mapping key only, and an absent value is replaced by the default handed to the getter.
  A load input that is no mapping has no getter: the assignment raises before any field
  is looked at. A getter is a callable (a schema class may put its own in place), so its
  call returns a value or raises; the two getters of the spec always return.
\<close>

type_synonym getter = "pyval \<Rightarrow> string \<Rightarrow> pyval \<Rightarrow> exn + pyval"

definition get_item :: getter where
  "get_item mapping k dflt =
     (case mapping of
        PDict kvs \<Rightarrow> (case map_of kvs (PStr k) of Some v \<Rightarrow> Inr v | None \<Rightarrow> Inr dflt)
      | _ \<Rightarrow> Inr dflt)"

definition get_attr :: getter where
  "get_attr obj k dflt =
     (case obj of
        PObj attrs \<Rightarrow> (case map_of attrs k of Some v \<Rightarrow> Inr v | None \<Rightarrow> Inr dflt)
      | _ \<Rightarrow> Inr dflt)"

definition is_mapping :: "pyval \<Rightarrow> bool" where
  "is_mapping v = (case v of PDict _ \<Rightarrow> True | _ \<Rightarrow> False)"

definition assign_attr_or_item_getter :: "pyval \<Rightarrow> exn + getter" where
  "assign_attr_or_item_getter data = (if is_mapping data then Inr get_item else Inr get_attr)"

definition assign_item_getter :: "pyval \<Rightarrow> exn + getter" where
  "assign_item_getter data =
     (if is_mapping data then Inr get_item
      else Inl (TypeError, PStr ''data must be a mapping''))"

text \<open>
  A hook is a method looked up by name (\<^verbatim>\<open>getattr(self, name, no_processing)\<close>); it may
  carry an \<open>error_key\<close> attribute.
\<close>

record hook =
  handle :: "pyval \<Rightarrow> exn + pyval"
  error_key :: "string option"

text \<open>
  What a schema class fixes: its declared fields (\<^verbatim>\<open>_field_dict\<close>), its \<open>Options\<close>
  defaults, \<^verbatim>\<open>_set_fields\<close> (given the current \<^verbatim>\<open>_field_dict\<close> and the external field
  source, it yields the new \<^verbatim>\<open>_field_dict\<close>), the two getter assignments and the hooks.
  An instance adds its resolved options and its two registries.
\<close>

record catalyst_class =
  field_dict :: "(string \<times> field) list"
  Options :: options
  set_fields :: "(string \<times> field) list \<Rightarrow> pyval \<Rightarrow> exn + (string \<times> field) list"
  assign_dump_getter :: "pyval \<Rightarrow> exn + getter"
  assign_load_getter :: "pyval \<Rightarrow> exn + getter"
  hooks :: "string \<Rightarrow> hook option"

record catalyst = catalyst_class +
  opts :: options
  dump_field_dict :: "(string \<times> field) list"
  load_field_dict :: "(string \<times> field) list"

text \<open>The eight hooks \<^verbatim>\<open>BaseCatalyst\<close> declares: identities tagged with their own name.\<close>

definition base_hooks :: "string \<Rightarrow> hook option" where
  "base_hooks = map_of
     (map (\<lambda>n. (n, \<lparr> handle = no_processing, error_key = Some n \<rparr>))
        [''pre_dump'', ''post_dump'', ''pre_load'', ''post_load'',
         ''pre_dump_many'', ''post_dump_many'', ''pre_load_many'', ''post_load_many''])"

text \<open>\<^verbatim>\<open>BaseCatalyst\<close> with the given declared fields; its \<^verbatim>\<open>_set_fields\<close> raises.\<close>

definition BaseCatalyst :: "(string \<times> field) list \<Rightarrow> catalyst_class" where
  "BaseCatalyst fd =
     \<lparr> field_dict = fd,
       Options = BaseCatalyst_Options,
       set_fields = (\<lambda>_ _. Inl (NotImplementedError, PNone)),
       assign_dump_getter = assign_attr_or_item_getter,
       assign_load_getter = assign_item_getter,
       hooks = base_hooks \<rparr>"

text \<open>\<^verbatim>\<open>_copy_fields\<close>; \<open>is_copying\<close> and \<^verbatim>\<open>fields[key]\<close> raise \<open>KeyError\<close> on an undeclared key.\<close>

fun copy_fields ::
  "(string \<times> field) list \<Rightarrow> string list \<Rightarrow> (string \<Rightarrow> exn + bool) \<Rightarrow>
   (string \<times> field) list \<Rightarrow> exn + (string \<times> field) list" where
  "copy_fields fds [] is_copying new_fields = Inr new_fields"
| "copy_fields fds (k # keys) is_copying new_fields =
     (case is_copying k of
        Inl e \<Rightarrow> Inl e
      | Inr True \<Rightarrow>
          (case map_of fds k of
             None \<Rightarrow> Inl (KeyError, PStr k)
           | Some f \<Rightarrow> copy_fields fds keys is_copying (AList.update k f new_fields))
      | Inr False \<Rightarrow> copy_fields fds keys is_copying new_fields)"

definition lookup_flag :: "(string \<times> field) list \<Rightarrow> (field \<Rightarrow> bool) \<Rightarrow> string \<Rightarrow> exn + bool" where
  "lookup_flag fd flag k =
     (case map_of fd k of
        None \<Rightarrow> Inl (KeyError, PStr k)
      | Some f \<Rightarrow> Inr (\<not> flag f))"

text \<open>
  \<^verbatim>\<open>BaseCatalyst.__init__\<close>. An argument left at \<open>None\<close> is \<open>None\<close> here; \<open>fields\<close>,
  \<open>dump_fields\<close> and \<open>load_fields\<close> are lists, empty when not given (\<^verbatim>\<open>not fields\<close> holds
  for both). Without \<open>fields\<close> the source iterates \<^verbatim>\<open>set(self._field_dict.keys())\<close>, whose
  order Python leaves open: \<open>rank\<close> stands for it, the keys come sorted by their rank,
  and every order of the keys is the order of some rank. Extra keyword options are not
  modelled.
\<close>

definition catalyst_init ::
  "(string \<Rightarrow> nat) \<Rightarrow> catalyst_class \<Rightarrow> pyval \<Rightarrow> string list \<Rightarrow> bool option \<Rightarrow> bool option \<Rightarrow>
   string list \<Rightarrow> string option \<Rightarrow> string list \<Rightarrow> string option \<Rightarrow> exn + catalyst" where
  "catalyst_init rank cls schema_arg fields_arg raise_error_arg all_errors_arg
       dump_fields dump_method_arg load_fields load_method_arg =
     (case (if truthy schema_arg then set_fields cls (field_dict cls) schema_arg
            else Inr (field_dict cls)) of
        Inl e \<Rightarrow> Inl e
      | Inr fd \<Rightarrow>
          (let fields' = (if fields_arg = [] then sort_key rank (remdups (map fst fd))
                          else fields_arg);
               dump_fields' = (if dump_fields = [] then fields' else dump_fields);
               load_fields' = (if load_fields = [] then fields' else load_fields)
           in case copy_fields fd dump_fields' (lookup_flag fd no_dump) [] of
                Inl e \<Rightarrow> Inl e
              | Inr dfd \<Rightarrow>
                  (case copy_fields fd load_fields' (lookup_flag fd no_load) [] of
                     Inl e \<Rightarrow> Inl e
                   | Inr lfd \<Rightarrow>
                       (let os = Options_init (Options cls) schema_arg raise_error_arg
                                   all_errors_arg dump_method_arg load_method_arg
                        in if dump_method os \<notin> {''dump'', ''format'', ''validate''} then
                             Inl (ValueError,
                                  PStr ''Argument `method` must be in ('dump', 'format', 'validate').'')
                           else if load_method os \<notin> {''load'', ''parse'', ''validate''} then
                             Inl (ValueError,
                                  PStr ''Argument `method` must be in ('load', 'parse', 'validate').'')
                           else
                             Inr \<lparr> field_dict = fd,
                                   Options = Options cls,
                                   set_fields = set_fields cls,
                                   assign_dump_getter = assign_dump_getter cls,
                                   assign_load_getter = assign_load_getter cls,
                                   hooks = hooks cls,
                                   opts = os,
                                   dump_field_dict = dfd,
                                   load_field_dict = lfd \<rparr>))))"

section \<open>Processing\<close>

text \<open>
  The three accumulators of a run: \<open>valid_data\<close>, \<open>errors\<close>, \<open>invalid_data\<close>.
\<close>

type_synonym dict = "(pyval \<times> pyval) list"

text \<open>\<^verbatim>\<open>_side_effect\<close>: run a hook; a raise becomes an error entry under the hook's key.\<close>

definition side_effect :: "catalyst \<Rightarrow> string \<Rightarrow> pyval \<Rightarrow> pyval \<times> pyval \<times> pyval" where
  "side_effect c hook_name data =
     (let h = (case hooks c hook_name of
                 Some h \<Rightarrow> h
               | None \<Rightarrow> \<lparr> handle = no_processing, error_key = None \<rparr>)
      in case handle h data of
           Inr v \<Rightarrow> (v, PNone, PNone)
         | Inl e \<Rightarrow>
             (let k = (case error_key h of Some k \<Rightarrow> k | None \<Rightarrow> hook_name)
              in (PNone, PDict [(PStr k, exc_val e)], data)))"

text \<open>
  \<^verbatim>\<open>getattr(field, method)(raw_value)\<close>. The constructor admits only the five method
  names below; any other name has no such field operation.
\<close>

definition call_method :: "field \<Rightarrow> string \<Rightarrow> pyval \<Rightarrow> exn + pyval" where
  "call_method f method raw_value =
     (if method = ''dump'' then field_dump f raw_value
      else if method = ''format'' then field_format f raw_value
      else if method = ''load'' then field_load f raw_value
      else if method = ''parse'' then field_parse f raw_value
      else if method = ''validate'' then field_validate f raw_value
      else Inl (AttributeError, PStr method))"

text \<open>
  The \<^verbatim>\<open>except\<close> branch of the field loop: what a raised exception leaves in the three
  accumulators. The test \<^verbatim>\<open>isinstance(e.msg, CatalystResult)\<close> holds for a
  \<open>DumpResult\<close> payload only: the \<open>LoadResult\<close> of \<^verbatim>\<open>utils.py\<close> has no base class.
\<close>

definition collect_error ::
  "exn \<Rightarrow> pyval \<Rightarrow> pyval \<Rightarrow> pyval \<Rightarrow> dict \<times> dict \<times> dict \<Rightarrow> dict \<times> dict \<times> dict" where
  "collect_error e source target raw_value acc =
     (case acc of (vd, er, ivd) \<Rightarrow>
        (case e of
           (ValidationError, PResult DumpResult v_in e_in i_in) \<Rightarrow>
             (dict_set vd target v_in, dict_set er source e_in, dict_set ivd source i_in)
         | _ \<Rightarrow> (vd, dict_set er source (exc_val e), dict_set ivd source raw_value)))"

text \<open>
  What the loop of \<^verbatim>\<open>_process_one\<close> reads off a field; \<open>dump_dir\<close> says whether
  \<open>name == 'dump'\<close>. Dump reads under the field's \<open>name\<close> and writes under its \<open>key\<close>; load
  the other way round. The default is produced and the raw value fetched before the
  \<^verbatim>\<open>try\<close>: an exception of either leaves the loop.
\<close>

definition field_required :: "bool \<Rightarrow> field \<Rightarrow> bool" where
  "field_required dump_dir f = (if dump_dir then dump_required f else load_required f)"

definition field_default :: "bool \<Rightarrow> field \<Rightarrow> exn + pyval" where
  "field_default dump_dir f = (if dump_dir then dump_default f else load_default f)"

definition field_source :: "bool \<Rightarrow> field \<Rightarrow> string" where
  "field_source dump_dir f = (if dump_dir then name f else key f)"

definition field_target :: "bool \<Rightarrow> field \<Rightarrow> string" where
  "field_target dump_dir f = (if dump_dir then key f else name f)"

definition raw_value_of :: "bool \<Rightarrow> getter \<Rightarrow> pyval \<Rightarrow> field \<Rightarrow> exn + pyval" where
  "raw_value_of dump_dir get_value data f =
     (case field_default dump_dir f of
        Inl e \<Rightarrow> Inl e
      | Inr dflt \<Rightarrow> get_value data (field_source dump_dir f) dflt)"

text \<open>
  One pass through the body of the \<^verbatim>\<open>for field in field_dict.values()\<close> loop. It
  raises what the default or the getter raises; otherwise it returns the accumulators and
  whether the pass recorded an error (the two places where the source tests
  \<^verbatim>\<open>if not all_errors: break\<close>).
\<close>

definition process_field ::
  "bool \<Rightarrow> string \<Rightarrow> getter \<Rightarrow> pyval \<Rightarrow> field \<Rightarrow>
   dict \<times> dict \<times> dict \<Rightarrow> exn + (dict \<times> dict \<times> dict) \<times> bool" where
  "process_field dump_dir method get_value data f acc =
     (let required = field_required dump_dir f;
          source = field_source dump_dir f;
          target = field_target dump_dir f
      in case raw_value_of dump_dir get_value data f of
           Inl e \<Rightarrow> Inl e
         | Inr raw_value \<Rightarrow>
             Inr (if raw_value = PMissing then
                    (if required then
                       (case acc of (vd, er, ivd) \<Rightarrow>
                          ((vd, dict_set er (PStr source) (exc_val (get_error f ''required'')), ivd),
                           True))
                     else (acc, False))
                  else
                    (case call_method f method raw_value of
                       Inr v \<Rightarrow>
                         (case acc of (vd, er, ivd) \<Rightarrow>
                            ((dict_set vd (PStr target) v, er, ivd), False))
                     | Inl e \<Rightarrow>
                         (collect_error e (PStr source) (PStr target) raw_value acc, True))))"

text \<open>
  Whether the pass over a field completes and records an error; the accumulators play no
  part.
\<close>

definition field_fails :: "bool \<Rightarrow> string \<Rightarrow> getter \<Rightarrow> pyval \<Rightarrow> field \<Rightarrow> bool" where
  "field_fails dump_dir method get_value data f =
     (case process_field dump_dir method get_value data f ([], [], []) of
        Inl e \<Rightarrow> False
      | Inr (acc', failed) \<Rightarrow> failed)"

text \<open>The loop: \<^verbatim>\<open>break\<close> after an error unless \<open>all_errors\<close>.\<close>

fun process_fields ::
  "bool \<Rightarrow> string \<Rightarrow> getter \<Rightarrow> pyval \<Rightarrow> bool \<Rightarrow> field list \<Rightarrow>
   dict \<times> dict \<times> dict \<Rightarrow> exn + dict \<times> dict \<times> dict" where
  "process_fields dump_dir method get_value data all_errs [] acc = Inr acc"
| "process_fields dump_dir method get_value data all_errs (f # fs) acc =
     (case process_field dump_dir method get_value data f acc of
        Inl e \<Rightarrow> Inl e
      | Inr (acc', failed) \<Rightarrow>
          if failed \<and> \<not> all_errs then Inr acc'
          else process_fields dump_dir method get_value data all_errs fs acc')"

definition process_one ::
  "catalyst \<Rightarrow> string \<Rightarrow> pyval \<Rightarrow> bool \<Rightarrow> exn + pyval \<times> pyval \<times> pyval" where
  "process_one c pname data all_errs =
     (if pname = ''dump'' \<or> pname = ''load'' then
        (let dump_dir = (pname = ''dump'');
             fd = (if dump_dir then dump_field_dict c else load_field_dict c);
             assign_getter = (if dump_dir then assign_dump_getter c else assign_load_getter c);
             method = (if dump_dir then dump_method (opts c) else load_method (opts c))
         in case assign_getter data of
              Inl e \<Rightarrow> Inl e
            | Inr get_value \<Rightarrow>
                (case process_fields dump_dir method get_value data all_errs (map snd fd) ([], [], []) of
                   Inl e \<Rightarrow> Inl e
                 | Inr (vd, er, ivd) \<Rightarrow> Inr (PDict vd, PDict er, PDict ivd)))
      else Inl (ValueError, PStr ''Argument `name` must be 'dump' or 'load'.''))"

text \<open>
  \<^verbatim>\<open>_process_flow\<close> after its choice of \<open>method_name\<close> and \<open>handle\<close>. The source's
  \<^verbatim>\<open>_process_flow\<close> and \<^verbatim>\<open>_process_many\<close> call each other; the call from
  \<^verbatim>\<open>_process_many\<close> always has \<open>many = False\<close>, so the recursion is unfolded:
  \<open>process_flow_one\<close> is the flow over \<^verbatim>\<open>_process_one\<close>, \<open>process_many\<close> iterates it, and
  \<open>process_flow\<close> picks one of the two.
\<close>

definition flow_body ::
  "catalyst \<Rightarrow> string \<Rightarrow> string \<Rightarrow> (string \<Rightarrow> pyval \<Rightarrow> bool \<Rightarrow> exn + pyval \<times> pyval \<times> pyval) \<Rightarrow>
   pyval \<Rightarrow> bool option \<Rightarrow> bool option \<Rightarrow> exn + result" where
  "flow_body c pname method_name hdl data raise_error_arg all_errors_arg =
     (if pname = ''dump'' \<or> pname = ''load'' then
        (let ResultClass = (if pname = ''dump'' then DumpResult else LoadResult);
             all_errs = opts_get all_errors_arg (all_errors (opts c));
             raise_err = opts_get raise_error_arg (raise_error (opts c))
         in case side_effect c (''pre_'' @ method_name) data of
              (vd0, er0, ivd0) \<Rightarrow>
                (case (if \<not> truthy er0 then hdl pname vd0 all_errs else Inr (vd0, er0, ivd0)) of
                   Inl e \<Rightarrow> Inl e
                 | Inr (vd1, er1, ivd1) \<Rightarrow>
                     (case (if \<not> truthy er1 then side_effect c (''post_'' @ method_name) vd1
                            else (vd1, er1, ivd1)) of
                        (vd2, er2, ivd2) \<Rightarrow>
                          (let r = \<lparr> result_cls = ResultClass, content = vd2,
                                     errors = er2, invalid_data = ivd2 \<rparr>
                           in if truthy er2 \<and> raise_err
                              then Inl (ValidationError, result_val r)
                              else Inr r))))
      else Inl (ValueError, PStr ''Argument `name` must be `dump` or `load`.''))"

definition process_flow_one ::
  "catalyst \<Rightarrow> string \<Rightarrow> pyval \<Rightarrow> bool option \<Rightarrow> bool option \<Rightarrow> exn + result" where
  "process_flow_one c pname data raise_error_arg all_errors_arg =
     flow_body c pname pname (process_one c) data raise_error_arg all_errors_arg"

text \<open>\<^verbatim>\<open>enumerate(data)\<close>: a list gives its items, a dict its keys, a string its characters.\<close>

definition iter_items :: "pyval \<Rightarrow> exn + pyval list" where
  "iter_items data =
     (case data of
        PList xs \<Rightarrow> Inr xs
      | PDict kvs \<Rightarrow> Inr (map fst kvs)
      | PStr s \<Rightarrow> Inr (map (\<lambda>ch. PStr [ch]) s)
      | _ \<Rightarrow> Inl (TypeError, PStr ''object is not iterable''))"

text \<open>
  The loop of \<^verbatim>\<open>_process_many\<close> from index \<open>i\<close> on. It reads \<^verbatim>\<open>result.valid_data\<close>
  first, for every item.
\<close>

fun process_items ::
  "catalyst \<Rightarrow> string \<Rightarrow> bool \<Rightarrow> nat \<Rightarrow> pyval list \<Rightarrow>
   pyval list \<times> dict \<times> dict \<Rightarrow> exn + pyval list \<times> dict \<times> dict" where
  "process_items c pname all_errs i [] acc = Inr acc"
| "process_items c pname all_errs i (item # items) acc =
     (case process_flow_one c pname item (Some False) (Some all_errs) of
        Inl e \<Rightarrow> Inl e
      | Inr r \<Rightarrow>
          (case get_valid_data r of
             Inl e \<Rightarrow> Inl e
           | Inr v \<Rightarrow>
               (case acc of (vd, er, ivd) \<Rightarrow>
                  (if \<not> is_valid r then
                     (let acc' = (vd @ [v],
                                  dict_set er (PInt (int i)) (errors r),
                                  dict_set ivd (PInt (int i)) (invalid_data r))
                      in if \<not> all_errs then Inr acc'
                         else process_items c pname all_errs (Suc i) items acc')
                   else process_items c pname all_errs (Suc i) items (vd @ [v], er, ivd)))))"

definition process_many ::
  "catalyst \<Rightarrow> string \<Rightarrow> pyval \<Rightarrow> bool \<Rightarrow> exn + pyval \<times> pyval \<times> pyval" where
  "process_many c pname data all_errs =
     (case iter_items data of
        Inl e \<Rightarrow> Inl e
      | Inr items \<Rightarrow>
          (case process_items c pname all_errs 0 items ([], [], []) of
             Inl e \<Rightarrow> Inl e
           | Inr (vd, er, ivd) \<Rightarrow> Inr (PList vd, PDict er, PDict ivd)))"

definition process_flow ::
  "catalyst \<Rightarrow> string \<Rightarrow> bool \<Rightarrow> pyval \<Rightarrow> bool option \<Rightarrow> bool option \<Rightarrow> exn + result" where
  "process_flow c pname many data raise_error_arg all_errors_arg =
     (if many then
        flow_body c pname (pname @ ''_many'') (process_many c) data raise_error_arg all_errors_arg
      else
        flow_body c pname pname (process_one c) data raise_error_arg all_errors_arg)"

definition dump :: "catalyst \<Rightarrow> pyval \<Rightarrow> bool option \<Rightarrow> bool option \<Rightarrow> exn + result" where
  "dump c data raise_error_arg all_errors_arg =
     process_flow c ''dump'' False data raise_error_arg all_errors_arg"

definition load :: "catalyst \<Rightarrow> pyval \<Rightarrow> bool option \<Rightarrow> bool option \<Rightarrow> exn + result" where
  "load c data raise_error_arg all_errors_arg =
     process_flow c ''load'' False data raise_error_arg all_errors_arg"

definition dump_many :: "catalyst \<Rightarrow> pyval \<Rightarrow> bool option \<Rightarrow> bool option \<Rightarrow> exn + result" where
  "dump_many c data raise_error_arg all_errors_arg =
     process_flow c ''dump'' True data raise_error_arg all_errors_arg"

definition load_many :: "catalyst \<Rightarrow> pyval \<Rightarrow> bool option \<Rightarrow> bool option \<Rightarrow> exn + result" where
  "load_many c data raise_error_arg all_errors_arg =
     process_flow c ''load'' True data raise_error_arg all_errors_arg"

text \<open>
  \<^verbatim>\<open>NestedField(catalyst, name=nm, key=ky)\<close>: the formatter and parser call the inner
  schema with \<open>raise_error\<close> forced true and read \<open>valid_data\<close> off the result.
\<close>

definition NestedField :: "catalyst \<Rightarrow> string \<Rightarrow> string \<Rightarrow> field" where
  "NestedField c nm ky =
     (Field nm ky)
       \<lparr> formatter := (\<lambda>value. case dump c value (Some True) None of
                                 Inl e \<Rightarrow> Inl e
                               | Inr r \<Rightarrow> get_valid_data r),
         parser := (\<lambda>value. case load c value (Some True) None of
                              Inl e \<Rightarrow> Inl e
                            | Inr r \<Rightarrow> get_valid_data r) \<rparr>"

section \<open>Example fields and schemas\<close>

text \<open>A validator that accepts the integers above zero and rejects every other value.\<close>

definition positive :: "pyval \<Rightarrow> exn option" where
  "positive v =
     (case v of
        PInt i \<Rightarrow> if 0 < i then None else Some (ValidationError, PStr ''Value must be positive.'')
      | _ \<Rightarrow> Some (TypeError, PStr ''Value must be a number.''))"

text \<open>A parser that raises on every input.\<close>

definition failing :: "pyval \<Rightarrow> exn + pyval" where
  "failing v = Inl (OtherError ''ParseError'', v)"

definition counted :: field where
  "counted = (Field ''count'' ''n'') \<lparr> validators := [positive] \<rparr>"

definition strict :: field where
  "strict = (Field ''code'' ''code'') \<lparr> parser := failing, allow_none := False \<rparr>"

definition lenient :: field where
  "lenient = (Field ''note'' ''note'') \<lparr> formatter := failing, parser := failing \<rparr>"

text \<open>A field whose load default is a producer that raises.\<close>

definition stamped :: field where
  "stamped = (Field ''stamp'' ''stamp'')
     \<lparr> load_default_opt := Producer (\<lambda>_. Inl (OtherError ''ClockError'', PNone)) \<rparr>"

text \<open>A schema class declaring the one field \<open>counted\<close>.\<close>

definition counter_class :: catalyst_class where
  "counter_class = BaseCatalyst [(''count'', counted)]"

text \<open>
  The instance a \<^verbatim>\<open>BaseCatalyst\<close> subclass declaring \<open>fd\<close> gives when it is constructed
  with \<open>fields\<close> naming the declared fields in their order and no field is flagged
  \<open>no_dump\<close> or \<open>no_load\<close>.
\<close>

definition instance_of :: "(string \<times> field) list \<Rightarrow> catalyst" where
  "instance_of fd =
     \<lparr> field_dict = fd,
       Options = BaseCatalyst_Options,
       set_fields = (\<lambda>_ _. Inl (NotImplementedError, PNone)),
       assign_dump_getter = assign_attr_or_item_getter,
       assign_load_getter = assign_item_getter,
       hooks = base_hooks,
       opts = BaseCatalyst_Options,
       dump_field_dict = fd,
       load_field_dict = fd \<rparr>"

definition required_a :: field where
  "required_a = (Field ''a'' ''a'') \<lparr> load_required := True \<rparr>"

definition required_b :: field where
  "required_b = (Field ''b'' ''b'') \<lparr> load_required := True \<rparr>"

text \<open>The error a field with the default messages records when a required value is missing.\<close>

definition required_error :: pyval where
  "required_error = PExc ValidationError (PStr ''Missing data for required field.'')"

text \<open>
  A nested schema: the outer field \<open>child\<close> (attribute \<open>child\<close>, external key \<open>kid\<close>)
  delegates to an inner schema with the one field \<open>a\<close>, required in both directions.
\<close>

definition inner_schema :: catalyst where
  "inner_schema = instance_of [(''a'', required_a)]"

definition child :: field where
  "child = NestedField inner_schema ''child'' ''kid''"

definition outer_schema :: catalyst where
  "outer_schema = instance_of [(''child'', child)]"

text \<open>A plain field, and a schema of two fields whose formatters and parsers are identities.\<close>

definition title :: field where
  "title = Field ''title'' ''title''"

definition plain_schema :: catalyst where
  "plain_schema = instance_of [(''count'', counted), (''title'', title)]"

section \<open>Field operations\<close>

text \<open>
  C10. Whenever \<open>Field.validate\<close> returns, it returns the value it was given: the
  validators only accept or reject, and \<open>None\<close> with \<open>allow_none\<close> comes back as \<open>None\<close>.
\<close>

theorem validate_returns_input:
  assumes "field_validate f v = Inr r"
  shows "r = v"
proof (cases "v = PNone")
  case True
  with assms show ?thesis
    by (simp add: field_validate_def split: if_splits)
next
  case False
  with assms show ?thesis
    by (simp add: field_validate_def split: option.splits)
qed

theorem validate_returns_input_witness:
  "field_validate counted (PInt 3) = Inr (PInt 3) \<and> PInt 3 = PInt 3"
proof -
  have h: "field_validate counted (PInt 3) = Inr (PInt 3)"
    by (simp add: field_validate_def counted_def Field_def positive_def)
  from validate_returns_input [OF h] h show ?thesis by simp
qed

text \<open>
  C6. With \<open>parse_none\<close> and \<open>format_none\<close> at their default (false): loading \<open>None\<close>
  into a field with \<open>allow_none\<close> false fails with the field's \<open>none\<close> error whatever the
  parser is, and with \<open>allow_none\<close> true loading and dumping \<open>None\<close> give \<open>None\<close> whatever
  the parser and the formatter are.
\<close>

theorem none_handling:
  "(\<not> allow_none f \<and> \<not> parse_none f \<longrightarrow>
      (\<forall>p. field_load (f\<lparr>parser := p\<rparr>) PNone = Inl (error f ''none''))) \<and>
   (allow_none f \<and> \<not> parse_none f \<longrightarrow>
      (\<forall>p. field_load (f\<lparr>parser := p\<rparr>) PNone = Inr PNone)) \<and>
   (allow_none f \<and> \<not> format_none f \<longrightarrow>
      (\<forall>p. field_dump (f\<lparr>formatter := p\<rparr>) PNone = Inr PNone))"
  by (simp add: field_load_def field_parse_def field_validate_def field_dump_def
      field_format_def error_def)

theorem none_handling_witness:
  "(\<not> allow_none strict \<and> \<not> parse_none strict) \<and>
   field_load strict PNone = Inl (ValidationError, PStr ''Field may not be None.'') \<and>
   (allow_none lenient \<and> \<not> parse_none lenient \<and> \<not> format_none lenient) \<and>
   field_load lenient PNone = Inr PNone \<and>
   field_dump lenient PNone = Inr PNone"
proof -
  have s: "\<not> allow_none strict \<and> \<not> parse_none strict"
    by (simp add: strict_def Field_def)
  have l: "allow_none lenient \<and> \<not> parse_none lenient \<and> \<not> format_none lenient"
    by (simp add: lenient_def Field_def)
  have e: "error strict ''none'' = (ValidationError, PStr ''Field may not be None.'')"
    by (simp add: error_def strict_def Field_def default_error_messages_def)
  from none_handling [of strict] s
  have "field_load (strict\<lparr>parser := parser strict\<rparr>) PNone = Inl (error strict ''none'')"
    by blast
  then have 1: "field_load strict PNone = Inl (ValidationError, PStr ''Field may not be None.'')"
    by (simp add: e)
  from none_handling [of lenient] l
  have "field_load (lenient\<lparr>parser := parser lenient\<rparr>) PNone = Inr PNone"
    and "field_dump (lenient\<lparr>formatter := formatter lenient\<rparr>) PNone = Inr PNone"
    by blast+
  then have 2: "field_load lenient PNone = Inr PNone" "field_dump lenient PNone = Inr PNone"
    by simp_all
  from s l 1 2 show ?thesis by simp
qed

section \<open>Construction\<close>

lemma copy_fields_declared:
  "set keys \<subseteq> fst ` set fd \<Longrightarrow> \<exists>r. copy_fields fd keys (lookup_flag fd flag) acc = Inr r"
proof (induction keys arbitrary: acc)
  case Nil
  then show ?case by simp
next
  case (Cons k keys)
  from Cons.prems have "k \<in> fst ` set fd" by simp
  then obtain f where f: "map_of fd k = Some f"
    by (metis map_of_eq_None_iff not_Some_eq)
  from Cons.prems have "set keys \<subseteq> fst ` set fd" by simp
  from Cons.IH [OF this] show ?case
    by (cases "flag f") (simp_all add: f lookup_flag_def)
qed

text \<open>
  C9. Once the registries are built (the field source, if any, was harvested and every
  requested field name is declared), the constructor returns an instance carrying the
  effective options exactly when the effective \<open>dump_method\<close> is one of \<open>dump\<close>, \<open>format\<close>,
  \<open>validate\<close> and the effective \<open>load_method\<close> is one of \<open>load\<close>, \<open>parse\<close>, \<open>validate\<close>;
  otherwise it raises a \<open>ValueError\<close>.
\<close>

theorem init_checks_methods:
  assumes reg: "(if truthy schema_arg then set_fields cls (field_dict cls) schema_arg
                 else Inr (field_dict cls)) = Inr fd"
    and declared: "set fields_arg \<union> set dump_fields \<union> set load_fields \<subseteq> fst ` set fd"
    and os: "os = Options_init (Options cls) schema_arg raise_error_arg all_errors_arg
                    dump_method_arg load_method_arg"
  shows "(if dump_method os \<in> {''dump'', ''format'', ''validate''} \<and>
             load_method os \<in> {''load'', ''parse'', ''validate''}
          then \<exists>c. catalyst_init rank cls schema_arg fields_arg raise_error_arg all_errors_arg
                      dump_fields dump_method_arg load_fields load_method_arg = Inr c \<and> opts c = os
          else \<exists>m. catalyst_init rank cls schema_arg fields_arg raise_error_arg all_errors_arg
                      dump_fields dump_method_arg load_fields load_method_arg = Inl (ValueError, m))"
proof -
  let ?fields = "if fields_arg = [] then sort_key rank (remdups (map fst fd)) else fields_arg"
  let ?dfs = "if dump_fields = [] then ?fields else dump_fields"
  let ?lfs = "if load_fields = [] then ?fields else load_fields"
  from declared have "set ?dfs \<subseteq> fst ` set fd" "set ?lfs \<subseteq> fst ` set fd"
    by auto
  then obtain dfd lfd where
    d: "copy_fields fd ?dfs (lookup_flag fd no_dump) [] = Inr dfd" and
    l: "copy_fields fd ?lfs (lookup_flag fd no_load) [] = Inr lfd"
    using copy_fields_declared by meson
  show ?thesis
    unfolding catalyst_init_def reg
    by (simp add: Let_def d l os [symmetric] del: insert_iff)
qed

theorem init_checks_methods_witness:
  "set [''count''] \<union> set [] \<union> set [] \<subseteq> fst ` set (field_dict counter_class) \<and>
   (\<exists>m. catalyst_init length counter_class PNone [''count''] None None [] (Some ''check'') [] None
          = Inl (ValueError, m)) \<and>
   (\<exists>c. catalyst_init length counter_class PNone [''count''] None None [] None [] (Some ''parse'')
          = Inr c \<and> load_method (opts c) = ''parse'')"
proof -
  have reg: "(if truthy PNone then set_fields counter_class (field_dict counter_class) PNone
              else Inr (field_dict counter_class)) = Inr (field_dict counter_class)"
    by simp
  have declared:
    "set [''count''] \<union> set [] \<union> set [] \<subseteq> fst ` set (field_dict counter_class)"
    by (simp add: counter_class_def BaseCatalyst_def)
  have bad: "\<exists>m. catalyst_init length counter_class PNone [''count''] None None [] (Some ''check'') [] None
                 = Inl (ValueError, m)"
    using init_checks_methods [OF reg declared refl, of None None "Some ''check''" None length]
    by (simp add: Options_init_def opts_get_def counter_class_def BaseCatalyst_def
        BaseCatalyst_Options_def)
  have good: "\<exists>c. catalyst_init length counter_class PNone [''count''] None None [] None [] (Some ''parse'')
                  = Inr c \<and> load_method (opts c) = ''parse''"
    using init_checks_methods [OF reg declared refl, of None None None "Some ''parse''" length]
    by (auto simp add: Options_init_def opts_get_def counter_class_def BaseCatalyst_def
        BaseCatalyst_Options_def)
  from declared bad good show ?thesis by blast
qed

section \<open>The flow\<close>

lemmas schema_defs = instance_of_def BaseCatalyst_Options_def base_hooks_def

lemmas flow_defs = load_def dump_def load_many_def dump_many_def process_flow_def flow_body_def
  side_effect_def opts_get_def no_processing_def process_one_def process_field_def
  field_required_def field_default_def field_source_def field_target_def raw_value_of_def
  assign_item_getter_def assign_attr_or_item_getter_def is_mapping_def get_item_def get_attr_def
  load_default_def dump_default_def call_method_def collect_error_def dict_set_def
  get_error_def error_def exc_val_def is_valid_def result_val_def

lemmas field_defs = Field_def default_error_messages_def unknown_error_def field_load_def
  field_dump_def field_parse_def field_format_def field_validate_def

lemma instance_of_simps:
  "hooks (instance_of fd) = base_hooks"
  "assign_load_getter (instance_of fd) = assign_item_getter"
  "assign_dump_getter (instance_of fd) = assign_attr_or_item_getter"
  "load_field_dict (instance_of fd) = fd"
  "dump_field_dict (instance_of fd) = fd"
  "opts (instance_of fd) = BaseCatalyst_Options"
  by (simp_all add: instance_of_def)

lemma raise_flow:
  assumes "flow_body c pname mn hdl data (Some False) ae = Inr r" and "truthy (errors r)"
  shows "flow_body c pname mn hdl data (Some True) ae = Inl (ValidationError, result_val r)"
  using assms
  by (auto simp add: flow_body_def opts_get_def Let_def split: prod.splits sum.splits if_splits)

lemma load_required_a_empty:
  "load (instance_of [(''a'', required_a)]) (PDict []) (Some False) None =
     Inr \<lparr> result_cls = LoadResult, content = PDict [],
           errors = PDict [(PStr ''a'', required_error)],
           invalid_data = PDict [] \<rparr>"
  by (simp add: schema_defs flow_defs field_defs required_a_def required_error_def)

lemma process_field_returns:
  assumes "raw_value_of dd g data f = Inr raw"
  shows "\<exists>acc' failed. process_field dd m g data f acc = Inr (acc', failed)"
proof -
  from assms have "\<exists>p. process_field dd m g data f acc = Inr p"
    by (simp add: process_field_def Let_def)
  then show ?thesis by (metis surj_pair)
qed

text \<open>An exception that leaves the loop was raised while some field's raw value was read.\<close>

lemma process_fields_raises:
  assumes "process_fields dd m g data all_errs fs acc = Inl e"
  shows "\<exists>f\<in>set fs. raw_value_of dd g data f = Inl e"
  using assms
proof (induction fs arbitrary: acc)
  case Nil
  then show ?case by simp
next
  case (Cons f fs)
  show ?case
  proof (cases "raw_value_of dd g data f")
    case (Inl e')
    with Cons.prems show ?thesis by (simp add: process_field_def)
  next
    case (Inr raw)
    from process_field_returns [OF this]
    obtain acc' failed where s: "process_field dd m g data f acc = Inr (acc', failed)"
      by blast
    with Cons.prems have "process_fields dd m g data all_errs fs acc' = Inl e"
      by (simp split: if_splits)
    from Cons.IH [OF this] show ?thesis by auto
  qed
qed

text \<open>
  C7, as the code has it. When \<open>load\<close> with \<open>raise_error=False\<close> returns a result with
  a non-empty error mapping, \<open>load\<close> with \<open>raise_error=True\<close> on the same input raises a
  \<open>ValidationError\<close> whose payload is that result, and the result is not valid. No
  exception of a field's transform leaves the field loop: an exception that
  \<^verbatim>\<open>_process_one\<close> raises on a load was raised by the getter assignment or, for some
  field of the registry, while the field's default was produced or its raw value fetched
  (both happen before the \<^verbatim>\<open>try\<close>).
\<close>

theorem raise_error_wraps_result:
  "(load c data (Some False) ae = Inr r \<and> truthy (errors r) \<longrightarrow>
      load c data (Some True) ae = Inl (ValidationError, result_val r) \<and> \<not> is_valid r) \<and>
   (\<forall>e. process_one c ''load'' data' all_errs = Inl e \<longrightarrow>
      assign_load_getter c data' = Inl e \<or>
      (\<exists>g f. assign_load_getter c data' = Inr g \<and> f \<in> snd ` set (load_field_dict c) \<and>
             raw_value_of False g data' f = Inl e))"
proof -
  have 1: "load c data (Some False) ae = Inr r \<and> truthy (errors r) \<longrightarrow>
      load c data (Some True) ae = Inl (ValidationError, result_val r) \<and> \<not> is_valid r"
    by (simp add: load_def process_flow_def is_valid_def raise_flow)
  have 2: "assign_load_getter c data' = Inl e \<or>
      (\<exists>g f. assign_load_getter c data' = Inr g \<and> f \<in> snd ` set (load_field_dict c) \<and>
             raw_value_of False g data' f = Inl e)"
    if one: "process_one c ''load'' data' all_errs = Inl e" for e
  proof (cases "assign_load_getter c data'")
    case (Inl e')
    with one show ?thesis by (simp add: process_one_def)
  next
    case (Inr g)
    with one have "process_fields False (load_method (opts c)) g data' all_errs
        (map snd (load_field_dict c)) ([], [], []) = Inl e"
      by (simp add: process_one_def split: sum.splits prod.splits)
    from process_fields_raises [OF this] Inr show ?thesis by auto
  qed
  from 1 2 show ?thesis by blast
qed

text \<open>
  C7 as stated fails: a field whose load default is a producer that raises. Loading the
  empty mapping with \<open>raise_error=False\<close> does not return a result; the producer's
  exception leaves the field loop and the flow.
\<close>

theorem raise_error_wraps_result_counterexample:
  "load (instance_of [(''stamp'', stamped)]) (PDict []) (Some False) None =
     Inl (OtherError ''ClockError'', PNone)"
  by (simp add: schema_defs flow_defs stamped_def Field_def)

theorem raise_error_wraps_result_witness:
  "load (instance_of [(''a'', required_a)]) (PDict []) (Some False) None =
     Inr \<lparr> result_cls = LoadResult, content = PDict [],
           errors = PDict [(PStr ''a'', required_error)], invalid_data = PDict [] \<rparr> \<and>
   truthy (PDict [(PStr ''a'', required_error)]) \<and>
   load (instance_of [(''a'', required_a)]) (PDict []) (Some True) None =
     Inl (ValidationError,
          PResult LoadResult (PDict []) (PDict [(PStr ''a'', required_error)]) (PDict [])) \<and>
   process_one (instance_of [(''stamp'', stamped)]) ''load'' (PDict []) True =
     Inl (OtherError ''ClockError'', PNone) \<and>
   assign_load_getter (instance_of [(''stamp'', stamped)]) (PDict []) = Inr get_item \<and>
   raw_value_of False get_item (PDict []) stamped = Inl (OtherError ''ClockError'', PNone)"
proof -
  let ?c = "instance_of [(''a'', required_a)]" and ?s = "instance_of [(''stamp'', stamped)]"
  let ?r = "\<lparr> result_cls = LoadResult, content = PDict [],
              errors = PDict [(PStr ''a'', required_error)], invalid_data = PDict [] \<rparr>"
  have t: "truthy (errors ?r)" by simp
  have g: "assign_load_getter ?s (PDict []) = Inr get_item"
    by (simp add: instance_of_simps assign_item_getter_def is_mapping_def)
  have raw: "raw_value_of False get_item (PDict []) stamped = Inl (OtherError ''ClockError'', PNone)"
    by (simp add: raw_value_of_def field_default_def load_default_def stamped_def Field_def)
  have p: "process_one ?s ''load'' (PDict []) True = Inl (OtherError ''ClockError'', PNone)"
    by (simp add: process_one_def instance_of_simps assign_item_getter_def is_mapping_def
        process_field_def raw)
  from raise_error_wraps_result [of ?c "PDict []" None ?r "PDict []" True]
    raise_error_wraps_result [of ?s "PDict []" None ?r "PDict []" True]
    load_required_a_empty t p g raw
  show ?thesis
    by (simp add: result_val_def)
qed

section \<open>The field loop\<close>

lemma map_of_dict_set: "map_of (dict_set d k v) = (map_of d)(k \<mapsto> v)"
  by (simp add: dict_set_def update_conv')

lemma keys_dict_set:
  "map fst (dict_set d k v) = (if k \<in> set (map fst d) then map fst d else map fst d @ [k])"
  by (simp add: dict_set_def update_keys)

lemma process_field_required:
  assumes "raw_value_of dd g data f = Inr PMissing" and "field_required dd f"
  shows "process_field dd m g data f (vd, er, ivd) =
           Inr ((vd, dict_set er (PStr (field_source dd f)) (exc_val (get_error f ''required'')), ivd),
                True)"
  using assms by (simp add: process_field_def)

lemma process_field_skip:
  assumes "raw_value_of dd g data f = Inr PMissing" and "\<not> field_required dd f"
  shows "process_field dd m g data f acc = Inr (acc, False)"
  using assms by (simp add: process_field_def)

lemma process_field_ok:
  assumes "raw_value_of dd g data f = Inr raw" and "raw \<noteq> PMissing"
    and "call_method f m raw = Inr v"
  shows "process_field dd m g data f (vd, er, ivd) =
           Inr ((dict_set vd (PStr (field_target dd f)) v, er, ivd), False)"
  using assms by (simp add: process_field_def)

lemma process_field_raise:
  assumes "raw_value_of dd g data f = Inr raw" and "raw \<noteq> PMissing"
    and "call_method f m raw = Inl e"
  shows "process_field dd m g data f acc =
           Inr (collect_error e (PStr (field_source dd f)) (PStr (field_target dd f)) raw acc,
                True)"
  using assms by (simp add: process_field_def)

lemma collect_error_shape:
  "\<exists>vd' x y. collect_error e s t raw (vd, er, ivd) = (vd', dict_set er s x, dict_set ivd s y) \<and>
      (vd' = vd \<or> (\<exists>z. vd' = dict_set vd t z))"
  by (auto simp add: collect_error_def split: prod.splits exc_class.splits pyval.splits
      result_class.splits)

lemma process_field_reads:
  assumes "process_field dd m g data f acc = Inr p"
  shows "\<exists>raw. raw_value_of dd g data f = Inr raw"
  using assms by (cases "raw_value_of dd g data f") (simp_all add: process_field_def)

lemma field_fails_acc:
  "process_field dd m g data f acc = Inr (acc', failed) \<Longrightarrow> failed = field_fails dd m g data f"
  by (cases acc; cases "raw_value_of dd g data f")
    (auto simp add: field_fails_def process_field_def Let_def split: sum.splits if_splits)

lemma field_fails_returns:
  assumes "field_fails dd m g data f"
  shows "\<exists>acc'. process_field dd m g data f acc = Inr (acc', True)"
proof -
  from assms obtain p where "process_field dd m g data f ([], [], []) = Inr p"
    by (auto simp add: field_fails_def split: sum.splits)
  from process_field_reads [OF this] obtain raw where "raw_value_of dd g data f = Inr raw" ..
  from process_field_returns [OF this] obtain acc' failed
    where s: "process_field dd m g data f acc = Inr (acc', failed)" by blast
  from field_fails_acc [OF s] assms have "failed = True" by simp
  with s have "process_field dd m g data f acc = Inr (acc', True)" by simp
  then show ?thesis ..
qed

text \<open>A pass that records no error leaves the error mapping alone; one that does writes
  under the field's source.\<close>

lemma process_field_errors:
  assumes "process_field dd m g data f (vd, er, ivd) = Inr ((vd', er', ivd'), failed)"
  shows "if failed then \<exists>x. er' = dict_set er (PStr (field_source dd f)) x else er' = er"
proof -
  from process_field_reads [OF assms] obtain raw where r: "raw_value_of dd g data f = Inr raw" ..
  show ?thesis
  proof (cases "raw = PMissing")
    case True
    with assms r show ?thesis
      by (cases "field_required dd f") (auto simp add: process_field_required process_field_skip)
  next
    case False
    show ?thesis
    proof (cases "call_method f m raw")
      case (Inl e)
      with False r assms collect_error_shape [of e "PStr (field_source dd f)"
          "PStr (field_target dd f)" raw vd er ivd]
      show ?thesis by (auto simp add: process_field_raise)
    next
      case (Inr v)
      with False r assms show ?thesis by (auto simp add: process_field_ok)
    qed
  qed
qed

lemma process_field_valid:
  assumes "process_field dd m g data f (vd, er, ivd) = Inr ((vd', er', ivd'), failed)"
  shows "vd' = vd \<or> (\<exists>z. vd' = dict_set vd (PStr (field_target dd f)) z)"
proof -
  from process_field_reads [OF assms] obtain raw where r: "raw_value_of dd g data f = Inr raw" ..
  show ?thesis
  proof (cases "raw = PMissing")
    case True
    with assms r show ?thesis
      by (cases "field_required dd f") (auto simp add: process_field_required process_field_skip)
  next
    case False
    show ?thesis
    proof (cases "call_method f m raw")
      case (Inl e)
      with False r assms collect_error_shape [of e "PStr (field_source dd f)"
          "PStr (field_target dd f)" raw vd er ivd]
      show ?thesis by (auto simp add: process_field_raise)
    next
      case (Inr v)
      with False r assms show ?thesis by (auto simp add: process_field_ok)
    qed
  qed
qed

lemma side_effect_base:
  assumes "hooks c = base_hooks"
  shows "side_effect c ''pre_dump'' data = (data, PNone, PNone)"
    and "side_effect c ''post_dump'' data = (data, PNone, PNone)"
    and "side_effect c ''pre_load'' data = (data, PNone, PNone)"
    and "side_effect c ''post_load'' data = (data, PNone, PNone)"
  using assms by (simp_all add: side_effect_def no_processing_def base_hooks_def)

lemma load_base:
  assumes h: "hooks c = base_hooks"
    and one: "process_one c ''load'' data (opts_get ae (all_errors (opts c))) = Inr (vd, er, ivd)"
  shows "load c data re ae =
     (if \<not> truthy er then
        Inr \<lparr> result_cls = LoadResult, content = vd, errors = PNone, invalid_data = PNone \<rparr>
      else if opts_get re (raise_error (opts c)) then
        Inl (ValidationError, PResult LoadResult vd er ivd)
      else Inr \<lparr> result_cls = LoadResult, content = vd, errors = er, invalid_data = ivd \<rparr>)"
  using one
  by (simp add: load_def process_flow_def flow_body_def side_effect_base [OF h] result_val_def)

lemma dump_base:
  assumes h: "hooks c = base_hooks"
    and one: "process_one c ''dump'' data (opts_get ae (all_errors (opts c))) = Inr (vd, er, ivd)"
  shows "dump c data re ae =
     (if \<not> truthy er then
        Inr \<lparr> result_cls = DumpResult, content = vd, errors = PNone, invalid_data = PNone \<rparr>
      else if opts_get re (raise_error (opts c)) then
        Inl (ValidationError, PResult DumpResult vd er ivd)
      else Inr \<lparr> result_cls = DumpResult, content = vd, errors = er, invalid_data = ivd \<rparr>)"
  using one
  by (simp add: dump_def process_flow_def flow_body_def side_effect_base [OF h] result_val_def)

lemma process_one_load:
  assumes "assign_load_getter c data = Inr g"
    and "process_fields False (load_method (opts c)) g data all_errs (map snd (load_field_dict c))
           ([], [], []) = Inr (vd, er, ivd)"
  shows "process_one c ''load'' data all_errs = Inr (PDict vd, PDict er, PDict ivd)"
  using assms by (simp add: process_one_def)

lemma process_one_dump:
  assumes "assign_dump_getter c data = Inr g"
    and "process_fields True (dump_method (opts c)) g data all_errs (map snd (dump_field_dict c))
           ([], [], []) = Inr (vd, er, ivd)"
  shows "process_one c ''dump'' data all_errs = Inr (PDict vd, PDict er, PDict ivd)"
  using assms by (simp add: process_one_def)

lemma two_failing_fields:
  assumes ne: "field_source dd f1 \<noteq> field_source dd f2"
    and f1: "field_fails dd m g data f1" and f2: "field_fails dd m g data f2"
  shows "\<exists>vd er ivd. process_fields dd m g data True [f1, f2] ([], [], []) = Inr (vd, er, ivd) \<and>
           map fst er = [PStr (field_source dd f1), PStr (field_source dd f2)]"
    and "\<exists>vd er ivd. process_fields dd m g data False [f1, f2] ([], [], []) = Inr (vd, er, ivd) \<and>
           map fst er = [PStr (field_source dd f1)]"
proof -
  from field_fails_returns [OF f1] obtain vd1 er1 ivd1
    where s1: "process_field dd m g data f1 ([], [], []) = Inr ((vd1, er1, ivd1), True)"
    by (metis prod_cases3)
  from process_field_errors [OF s1] have k1: "map fst er1 = [PStr (field_source dd f1)]"
    by (auto simp add: keys_dict_set)
  from field_fails_returns [OF f2] obtain vd2 er2 ivd2
    where s2: "process_field dd m g data f2 (vd1, er1, ivd1) = Inr ((vd2, er2, ivd2), True)"
    by (metis prod_cases3)
  from process_field_errors [OF s2] k1 ne
  have k2: "map fst er2 = [PStr (field_source dd f1), PStr (field_source dd f2)]"
    by (auto simp add: keys_dict_set)
  show "\<exists>vd er ivd. process_fields dd m g data True [f1, f2] ([], [], []) = Inr (vd, er, ivd) \<and>
           map fst er = [PStr (field_source dd f1), PStr (field_source dd f2)]"
    using s1 s2 k2 by simp
  show "\<exists>vd er ivd. process_fields dd m g data False [f1, f2] ([], [], []) = Inr (vd, er, ivd) \<and>
           map fst er = [PStr (field_source dd f1)]"
    using s1 k1 by simp
qed

text \<open>
  C4. A schema whose load registry holds two fields with different keys, both failing on
  the input (for instance both required and absent): a load that returns the result gives
  an error mapping with exactly the two keys under \<open>all_errors=True\<close> and with exactly
  the first field's key under \<open>all_errors=False\<close>.
\<close>

theorem all_errors_or_fail_fast:
  assumes h: "hooks c = base_hooks"
    and g: "assign_load_getter c data = Inr g"
    and fs: "map snd (load_field_dict c) = [f1, f2]"
    and ne: "key f1 \<noteq> key f2"
    and f1: "field_fails False (load_method (opts c)) g data f1"
    and f2: "field_fails False (load_method (opts c)) g data f2"
    and re: "\<not> opts_get re (raise_error (opts c))"
  shows "\<exists>r1 er1 r2 er2.
           load c data re (Some True) = Inr r1 \<and> errors r1 = PDict er1 \<and>
           map fst er1 = [PStr (key f1), PStr (key f2)] \<and> length er1 = 2 \<and>
           load c data re (Some False) = Inr r2 \<and> errors r2 = PDict er2 \<and>
           map fst er2 = [PStr (key f1)] \<and> length er2 = 1"
proof -
  from ne have ne': "field_source False f1 \<noteq> field_source False f2"
    by (simp add: field_source_def)
  from two_failing_fields(1) [OF ne' f1 f2] obtain vd er ivd where
    a: "process_fields False (load_method (opts c)) g data True [f1, f2] ([], [], []) = Inr (vd, er, ivd)"
    and ka: "map fst er = [PStr (key f1), PStr (key f2)]"
    by (auto simp add: field_source_def)
  from two_failing_fields(2) [OF ne' f1 f2] obtain vd' er' ivd' where
    b: "process_fields False (load_method (opts c)) g data False [f1, f2] ([], [], []) = Inr (vd', er', ivd')"
    and kb: "map fst er' = [PStr (key f1)]"
    by (auto simp add: field_source_def)
  from ka have la: "length er = 2" "er \<noteq> []" by (auto dest: arg_cong [where f = length])
  from kb have lb: "length er' = 1" "er' \<noteq> []" by (auto dest: arg_cong [where f = length])
  have 1: "load c data re (Some True) =
      Inr \<lparr> result_cls = LoadResult, content = PDict vd, errors = PDict er, invalid_data = PDict ivd \<rparr>"
    using load_base [OF h, of data "Some True" "PDict vd" "PDict er" "PDict ivd" re]
      process_one_load [OF g, of True vd er ivd] a fs re la
    by (simp add: opts_get_def)
  have 2: "load c data re (Some False) =
      Inr \<lparr> result_cls = LoadResult, content = PDict vd', errors = PDict er', invalid_data = PDict ivd' \<rparr>"
    using load_base [OF h, of data "Some False" "PDict vd'" "PDict er'" "PDict ivd'" re]
      process_one_load [OF g, of False vd' er' ivd'] b fs re lb
    by (simp add: opts_get_def)
  from 1 2 ka kb la lb show ?thesis by simp
qed


lemma process_fields_returns:
  assumes "\<forall>h\<in>set fs. \<exists>v. raw_value_of dd g data h = Inr v"
  shows "\<exists>acc'. process_fields dd m g data all_errs fs acc = Inr acc'"
  using assms
proof (induction fs arbitrary: acc)
  case Nil
  have "process_fields dd m g data all_errs [] acc = Inr acc" by simp
  then show ?case ..
next
  case (Cons f fs)
  from Cons.prems obtain v where "raw_value_of dd g data f = Inr v" by auto
  from process_field_returns [OF this] obtain acc' failed
    where s: "process_field dd m g data f acc = Inr (acc', failed)" by blast
  from Cons.prems have "\<forall>h\<in>set fs. \<exists>v. raw_value_of dd g data h = Inr v" by simp
  from Cons.IH [OF this, of acc'] s show ?case by (cases acc') auto
qed

lemma required_error_recorded:
  assumes own: "\<forall>h\<in>set fs. h \<noteq> f \<longrightarrow> field_source dd h \<noteq> field_source dd f"
    and miss: "raw_value_of dd g data f = Inr PMissing" and req: "field_required dd f"
    and start: "f \<in> set fs \<or>
                map_of er (PStr (field_source dd f)) = Some (exc_val (get_error f ''required''))"
    and run: "process_fields dd m g data True fs (vd, er, ivd) = Inr (vd', er', ivd')"
  shows "map_of er' (PStr (field_source dd f)) = Some (exc_val (get_error f ''required''))"
  using own start run
proof (induction fs arbitrary: vd er ivd)
  case Nil
  then show ?case by simp
next
  case (Cons h fs)
  from Cons.prems(3) obtain vd1 er1 ivd1 b
    where s: "process_field dd m g data h (vd, er, ivd) = Inr ((vd1, er1, ivd1), b)"
    by (auto split: sum.splits)
  with Cons.prems(3) have rest: "process_fields dd m g data True fs (vd1, er1, ivd1) = Inr (vd', er', ivd')"
    by simp
  from Cons.prems(1) have own': "\<forall>h\<in>set fs. h \<noteq> f \<longrightarrow> field_source dd h \<noteq> field_source dd f"
    by simp
  have "f \<in> set fs \<or>
        map_of er1 (PStr (field_source dd f)) = Some (exc_val (get_error f ''required''))"
  proof (cases "h = f")
    case True
    with s miss req show ?thesis
      by (auto simp add: process_field_required map_of_dict_set)
  next
    case False
    with Cons.prems(1) have "field_source dd h \<noteq> field_source dd f" by simp
    with process_field_errors [OF s]
    have "map_of er1 (PStr (field_source dd f)) = map_of er (PStr (field_source dd f))"
      by (cases b) (auto simp add: map_of_dict_set)
    with Cons.prems(2) False show ?thesis by auto
  qed
  from Cons.IH [OF own' this rest] show ?case .
qed

text \<open>
  C3. A schema with a load-required field \<open>f\<close> without load default, whose key no other
  field of the load registry shares: loading the empty mapping returns a result that is
  not valid and whose error mapping holds the field's \<open>required\<close> error under the field's
  key. (The schema collects all errors, or \<open>f\<close> is its only field; the pre-load hook is
  the identity, \<open>raise_error\<close> is off and no field's default producer raises.)
\<close>

theorem required_missing:
  assumes h: "hooks c = base_hooks"
    and g: "assign_load_getter c = assign_item_getter"
    and f: "f \<in> snd ` set (load_field_dict c)"
    and req: "load_required f" and dflt: "load_default f = Inr PMissing"
    and defaults: "\<forall>h\<in>snd ` set (load_field_dict c). \<exists>d. load_default h = Inr d"
    and own: "\<forall>h\<in>snd ` set (load_field_dict c). h \<noteq> f \<longrightarrow> key h \<noteq> key f"
    and ae: "opts_get ae (all_errors (opts c)) \<or> map snd (load_field_dict c) = [f]"
    and re: "\<not> opts_get re (raise_error (opts c))"
  shows "\<exists>r er. load c (PDict []) re ae = Inr r \<and> \<not> is_valid r \<and> errors r = PDict er \<and>
           map_of er (PStr (key f)) = Some (exc_val (get_error f ''required''))"
proof -
  let ?m = "load_method (opts c)" and ?fs = "map snd (load_field_dict c)"
  let ?all = "opts_get ae (all_errors (opts c))"
  have g': "assign_load_getter c (PDict []) = Inr get_item"
    by (simp add: g assign_item_getter_def is_mapping_def)
  have miss: "raw_value_of False get_item (PDict []) f = Inr PMissing"
    by (simp add: raw_value_of_def get_item_def field_default_def dflt)
  have req': "field_required False f" by (simp add: field_required_def req)
  have "\<forall>h\<in>set ?fs. \<exists>v. raw_value_of False get_item (PDict []) h = Inr v"
    using defaults by (auto simp add: raw_value_of_def get_item_def field_default_def)
  from process_fields_returns [OF this]
  obtain vd er ivd where run: "process_fields False ?m get_item (PDict []) ?all ?fs ([], [], []) = Inr (vd, er, ivd)"
    by (metis prod_cases3)
  have rec: "map_of er (PStr (key f)) = Some (exc_val (get_error f ''required''))"
  proof (cases ?all)
    case True
    from own have own': "\<forall>h\<in>set ?fs. h \<noteq> f \<longrightarrow> field_source False h \<noteq> field_source False f"
      by (simp add: field_source_def)
    from f have "f \<in> set ?fs \<or> map_of [] (PStr (field_source False f)) =
        Some (exc_val (get_error f ''required''))" by simp
    from required_error_recorded [OF own' miss req' this] run True
    show ?thesis by (simp add: field_source_def)
  next
    case False
    with ae have "?fs = [f]" by simp
    with run miss req' False show ?thesis
      by (auto simp add: process_field_required map_of_dict_set field_source_def)
  qed
  then have ne: "er \<noteq> []" by auto
  from load_base [OF h, of "PDict []" ae "PDict vd" "PDict er" "PDict ivd" re]
    process_one_load [OF g', of ?all vd er ivd] run re ne
  have "load c (PDict []) re ae =
      Inr \<lparr> result_cls = LoadResult, content = PDict vd, errors = PDict er, invalid_data = PDict ivd \<rparr>"
    by simp
  with rec ne show ?thesis by (simp add: is_valid_def)
qed

lemma required_fields_simps:
  "key required_a = ''a''" "key required_b = ''b''"
  "load_required required_a" "load_required required_b"
  "load_default required_a = Inr PMissing" "load_default required_b = Inr PMissing"
  "exc_val (get_error required_a ''required'') = required_error"
  "exc_val (get_error required_b ''required'') = required_error"
  by (simp_all add: required_a_def required_b_def Field_def load_default_def get_error_def
      error_def exc_val_def required_error_def default_error_messages_def)

theorem required_missing_witness:
  "required_a \<in> snd ` set (load_field_dict (instance_of [(''count'', counted), (''a'', required_a)])) \<and>
   load_required required_a \<and> load_default required_a = Inr PMissing \<and>
   (\<exists>r er. load (instance_of [(''count'', counted), (''a'', required_a)]) (PDict []) None None = Inr r \<and>
      \<not> is_valid r \<and> errors r = PDict er \<and> map_of er (PStr ''a'') = Some required_error)"
proof -
  let ?c = "instance_of [(''count'', counted), (''a'', required_a)]"
  have f: "required_a \<in> snd ` set (load_field_dict ?c)"
    by (simp add: instance_of_simps)
  have defaults: "\<forall>h\<in>snd ` set (load_field_dict ?c). \<exists>d. load_default h = Inr d"
    by (simp add: instance_of_simps required_a_def counted_def Field_def load_default_def)
  have own: "\<forall>h\<in>snd ` set (load_field_dict ?c). h \<noteq> required_a \<longrightarrow> key h \<noteq> key required_a"
    by (simp add: instance_of_simps required_fields_simps counted_def Field_def)
  have ae: "opts_get None (all_errors (opts ?c)) \<or> map snd (load_field_dict ?c) = [required_a]"
    by (simp add: instance_of_simps opts_get_def BaseCatalyst_Options_def)
  have re: "\<not> opts_get None (raise_error (opts ?c))"
    by (simp add: instance_of_simps opts_get_def BaseCatalyst_Options_def)
  from required_missing [OF instance_of_simps(1) instance_of_simps(2) f
      required_fields_simps(3) required_fields_simps(5) defaults own ae re] f
  show ?thesis by (simp add: required_fields_simps)
qed

theorem all_errors_or_fail_fast_witness:
  "map snd (load_field_dict (instance_of [(''a'', required_a), (''b'', required_b)])) =
     [required_a, required_b] \<and>
   key required_a \<noteq> key required_b \<and>
   field_fails False ''load'' get_item (PDict []) required_a \<and>
   field_fails False ''load'' get_item (PDict []) required_b \<and>
   (\<exists>r1 er1 r2 er2.
      load (instance_of [(''a'', required_a), (''b'', required_b)]) (PDict []) None (Some True) = Inr r1 \<and>
      errors r1 = PDict er1 \<and> map fst er1 = [PStr ''a'', PStr ''b''] \<and> length er1 = 2 \<and>
      load (instance_of [(''a'', required_a), (''b'', required_b)]) (PDict []) None (Some False) = Inr r2 \<and>
      errors r2 = PDict er2 \<and> map fst er2 = [PStr ''a''] \<and> length er2 = 1)"
proof -
  let ?c = "instance_of [(''a'', required_a), (''b'', required_b)]"
  have g: "assign_load_getter ?c (PDict []) = Inr get_item"
    by (simp add: instance_of_simps assign_item_getter_def is_mapping_def)
  have fs: "map snd (load_field_dict ?c) = [required_a, required_b]"
    by (simp add: instance_of_simps)
  have ne: "key required_a \<noteq> key required_b"
    by (simp add: required_fields_simps)
  have m: "load_method (opts ?c) = ''load''"
    by (simp add: instance_of_simps BaseCatalyst_Options_def)
  have fa: "field_fails False ''load'' get_item (PDict []) required_a"
    by (simp add: field_fails_def process_field_def raw_value_of_def field_default_def
        field_required_def get_item_def required_fields_simps)
  have fb: "field_fails False ''load'' get_item (PDict []) required_b"
    by (simp add: field_fails_def process_field_def raw_value_of_def field_default_def
        field_required_def get_item_def required_fields_simps)
  have re: "\<not> opts_get None (raise_error (opts ?c))"
    by (simp add: instance_of_simps opts_get_def BaseCatalyst_Options_def)
  from all_errors_or_fail_fast [OF instance_of_simps(1) g fs ne, unfolded m, OF fa fb re] fs ne fa fb
  show ?thesis by (simp add: required_fields_simps)
qed

section \<open>Dumping with the default options\<close>

lemma value_recorded:
  assumes own: "\<forall>h\<in>set fs. h \<noteq> f \<longrightarrow> field_target dd h \<noteq> field_target dd f"
    and raw: "raw_value_of dd g data f = Inr raw" "raw \<noteq> PMissing"
    and ok: "call_method f m raw = Inr v"
    and start: "f \<in> set fs \<or> map_of vd (PStr (field_target dd f)) = Some v"
    and run: "process_fields dd m g data True fs (vd, er, ivd) = Inr (vd', er', ivd')"
  shows "map_of vd' (PStr (field_target dd f)) = Some v"
  using own start run
proof (induction fs arbitrary: vd er ivd)
  case Nil
  then show ?case by simp
next
  case (Cons h fs)
  from Cons.prems(3) obtain vd1 er1 ivd1 b
    where s: "process_field dd m g data h (vd, er, ivd) = Inr ((vd1, er1, ivd1), b)"
    by (auto split: sum.splits)
  with Cons.prems(3) have rest: "process_fields dd m g data True fs (vd1, er1, ivd1) = Inr (vd', er', ivd')"
    by simp
  from Cons.prems(1) have own': "\<forall>h\<in>set fs. h \<noteq> f \<longrightarrow> field_target dd h \<noteq> field_target dd f"
    by simp
  have "f \<in> set fs \<or> map_of vd1 (PStr (field_target dd f)) = Some v"
  proof (cases "h = f")
    case True
    with s raw ok show ?thesis
      by (auto simp add: process_field_ok map_of_dict_set)
  next
    case False
    with Cons.prems(1) have "field_target dd h \<noteq> field_target dd f" by simp
    with process_field_valid [OF s]
    have "map_of vd1 (PStr (field_target dd f)) = map_of vd (PStr (field_target dd f))"
      by (auto simp add: map_of_dict_set)
    with Cons.prems(2) False show ?thesis by auto
  qed
  from Cons.IH [OF own' this rest] show ?case .
qed

text \<open>
  C1, as the code has it. A schema with the default options has \<open>dump_method = 'format'\<close>:
  in a single-item dump collecting all errors, a field of the dump registry whose raw
  value is not \<open>missing\<close> is handed to the field's \<open>format\<close> operation (no validation
  runs), and the value \<open>format\<close> returns is what \<open>valid_data\<close> holds under the field's
  key, provided no other field of the registry writes under that key and every field's
  raw value can be read.
\<close>

theorem default_dump_formats:
  assumes opts: "opts c = BaseCatalyst_Options"
    and g: "assign_dump_getter c data = Inr g"
    and f: "f \<in> snd ` set (dump_field_dict c)"
    and reads: "\<forall>h\<in>snd ` set (dump_field_dict c). \<exists>x. raw_value_of True g data h = Inr x"
    and raw: "raw_value_of True g data f = Inr raw" "raw \<noteq> PMissing"
    and ok: "field_format f raw = Inr v"
    and own: "\<forall>h\<in>snd ` set (dump_field_dict c). h \<noteq> f \<longrightarrow> key h \<noteq> key f"
  shows "\<exists>vd er ivd. process_one c ''dump'' data (all_errors (opts c)) = Inr (PDict vd, er, ivd) \<and>
           map_of vd (PStr (key f)) = Some v"
proof -
  let ?fs = "map snd (dump_field_dict c)"
  from opts have m: "dump_method (opts c) = ''format''" and ae: "all_errors (opts c)"
    by (simp_all add: BaseCatalyst_Options_def)
  from reads have "\<forall>h\<in>set ?fs. \<exists>x. raw_value_of True g data h = Inr x" by simp
  from process_fields_returns [OF this]
  obtain vd er ivd where run: "process_fields True ''format'' g data True ?fs ([], [], []) = Inr (vd, er, ivd)"
    by (metis prod_cases3)
  from own have own': "\<forall>h\<in>set ?fs. h \<noteq> f \<longrightarrow> field_target True h \<noteq> field_target True f"
    by (simp add: field_target_def)
  from ok have ok': "call_method f ''format'' raw = Inr v"
    by (simp add: call_method_def)
  from f have "f \<in> set ?fs \<or> map_of [] (PStr (field_target True f)) = Some v" by simp
  from value_recorded [OF own' raw ok' this run]
  have "map_of vd (PStr (key f)) = Some v" by (simp add: field_target_def)
  with process_one_dump [OF g, of True vd er ivd] run m ae show ?thesis by simp
qed

lemma init_strict:
  "catalyst_init length (BaseCatalyst [(''code'', strict), (''count'', counted)]) PNone
       [''code'', ''count''] None None [] None [] None =
     Inr (instance_of [(''code'', strict), (''count'', counted)])"
  by (simp add: catalyst_init_def BaseCatalyst_def instance_of_def lookup_flag_def Options_init_def
      opts_get_def BaseCatalyst_Options_def strict_def counted_def Field_def Let_def)

text \<open>
  C1 as stated fails: the schema built by the constructor with default options dumps
  \<open>None\<close> for a field that does not allow \<open>None\<close> and \<open>0\<close> for a field whose validator
  rejects it, without error, while the fields' \<open>dump\<close> operation (validate, then format)
  raises on both.
\<close>

theorem default_dump_formats_counterexample:
  "catalyst_init length (BaseCatalyst [(''code'', strict), (''count'', counted)]) PNone
       [''code'', ''count''] None None [] None [] None =
     Inr (instance_of [(''code'', strict), (''count'', counted)]) \<and>
   dump (instance_of [(''code'', strict), (''count'', counted)])
        (PDict [(PStr ''code'', PNone), (PStr ''count'', PInt 0)]) None None =
     Inr \<lparr> result_cls = DumpResult,
           content = PDict [(PStr ''code'', PNone), (PStr ''n'', PInt 0)],
           errors = PNone, invalid_data = PNone \<rparr> \<and>
   field_dump strict PNone = Inl (ValidationError, PStr ''Field may not be None.'') \<and>
   field_dump counted (PInt 0) = Inl (ValidationError, PStr ''Value must be positive.'')"
proof -
  have d: "dump (instance_of [(''code'', strict), (''count'', counted)])
        (PDict [(PStr ''code'', PNone), (PStr ''count'', PInt 0)]) None None =
     Inr \<lparr> result_cls = DumpResult,
           content = PDict [(PStr ''code'', PNone), (PStr ''n'', PInt 0)],
           errors = PNone, invalid_data = PNone \<rparr>"
    by (simp add: schema_defs flow_defs field_defs strict_def counted_def)
  have s: "field_dump strict PNone = Inl (ValidationError, PStr ''Field may not be None.'')"
    by (simp add: field_defs strict_def error_def)
  have c: "field_dump counted (PInt 0) = Inl (ValidationError, PStr ''Value must be positive.'')"
    by (simp add: field_defs counted_def positive_def)
  from init_strict d s c show ?thesis by simp
qed

theorem default_dump_formats_witness:
  "opts (instance_of [(''code'', strict), (''count'', counted)]) = BaseCatalyst_Options \<and>
   assign_dump_getter (instance_of [(''code'', strict), (''count'', counted)])
     (PDict [(PStr ''code'', PNone), (PStr ''count'', PInt 0)]) = Inr get_item \<and>
   raw_value_of True get_item (PDict [(PStr ''code'', PNone), (PStr ''count'', PInt 0)]) counted
     = Inr (PInt 0) \<and>
   field_format counted (PInt 0) = Inr (PInt 0) \<and>
   (\<exists>vd er ivd.
      process_one (instance_of [(''code'', strict), (''count'', counted)]) ''dump''
        (PDict [(PStr ''code'', PNone), (PStr ''count'', PInt 0)]) True = Inr (PDict vd, er, ivd) \<and>
      map_of vd (PStr ''n'') = Some (PInt 0))"
proof -
  let ?c = "instance_of [(''code'', strict), (''count'', counted)]"
  let ?d = "PDict [(PStr ''code'', PNone), (PStr ''count'', PInt 0)]"
  have g: "assign_dump_getter ?c ?d = Inr get_item"
    by (simp add: instance_of_simps assign_attr_or_item_getter_def is_mapping_def)
  have f: "counted \<in> snd ` set (dump_field_dict ?c)"
    by (simp add: instance_of_simps)
  have r: "raw_value_of True get_item ?d counted = Inr (PInt 0)"
    by (simp add: raw_value_of_def get_item_def field_source_def field_default_def
        dump_default_def counted_def Field_def)
  have reads: "\<forall>h\<in>snd ` set (dump_field_dict ?c). \<exists>x. raw_value_of True get_item ?d h = Inr x"
    by (simp add: instance_of_simps raw_value_of_def get_item_def field_source_def
        field_default_def dump_default_def counted_def strict_def Field_def)
  have ne: "PInt 0 \<noteq> PMissing" by simp
  have ok: "field_format counted (PInt 0) = Inr (PInt 0)"
    by (simp add: field_format_def counted_def Field_def no_processing_def)
  have own: "\<forall>h\<in>snd ` set (dump_field_dict ?c). h \<noteq> counted \<longrightarrow> key h \<noteq> key counted"
    by (simp add: instance_of_simps strict_def counted_def Field_def)
  have k: "key counted = ''n''" by (simp add: counted_def Field_def)
  from default_dump_formats [OF instance_of_simps(6) g f reads r ne ok own] g r ok
  show ?thesis
    by (simp add: k instance_of_simps(6) BaseCatalyst_Options_def)
qed

section \<open>Collecting a raised error\<close>


text \<open>
  C2, as the code has it. When the transform of a field raises on a raw value, the pass
  records an error. If the exception is a \<open>ValidationError\<close> carrying a
  \<open>CatalystResult\<close> (the nested-field case), the nested \<open>valid_data\<close> goes into the outer
  \<open>valid_data\<close> under the field's target (dump: key, load: name), and the nested \<open>errors\<close>
  and \<open>invalid_data\<close> go into the outer \<open>errors\<close> and \<open>invalid_data\<close> under the field's
  source (dump: name, load: key). If the exception is no \<open>ValidationError\<close> or carries no
  result, the exception itself is the error and the raw value the invalid data, both under
  the field's source.
\<close>

theorem raised_error_is_collected:
  assumes raw: "raw_value_of dd g data f = Inr raw" "raw \<noteq> PMissing"
    and e: "call_method f m raw = Inl e"
  shows "(\<forall>v_in e_in i_in. e = (ValidationError, PResult DumpResult v_in e_in i_in) \<longrightarrow>
            process_field dd m g data f (vd, er, ivd) =
              Inr ((dict_set vd (PStr (if dd then key f else name f)) v_in,
                    dict_set er (PStr (if dd then name f else key f)) e_in,
                    dict_set ivd (PStr (if dd then name f else key f)) i_in), True)) \<and>
         (fst e \<noteq> ValidationError \<or> (\<forall>rc a b d. snd e \<noteq> PResult rc a b d) \<longrightarrow>
            process_field dd m g data f (vd, er, ivd) =
              Inr ((vd,
                    dict_set er (PStr (if dd then name f else key f)) (exc_val e),
                    dict_set ivd (PStr (if dd then name f else key f)) raw), True))"
  using raw e
  by (cases e)
    (auto simp add: process_field_raise collect_error_def field_source_def field_target_def
      split: exc_class.splits pyval.splits result_class.splits)

lemma nested_dump_raises:
  assumes "dump c raw (Some False) None = Inr r" and "truthy (errors r)" and "raw \<noteq> PNone"
  shows "call_method (NestedField c nm ky) ''format'' raw = Inl (ValidationError, result_val r)"
proof -
  from assms(1,2) have "dump c raw (Some True) None = Inl (ValidationError, result_val r)"
    by (simp add: dump_def process_flow_def raise_flow)
  with assms(3) show ?thesis
    by (simp add: call_method_def field_format_def NestedField_def Field_def)
qed

lemma dump_inner_empty:
  "dump inner_schema (PDict []) (Some False) None =
     Inr \<lparr> result_cls = DumpResult, content = PDict [],
           errors = PDict [(PStr ''a'', required_error)], invalid_data = PDict [] \<rparr>"
  by (simp add: inner_schema_def schema_defs flow_defs field_defs required_a_def required_error_def)

lemma child_simps:
  "name child = ''child''" "key child = ''kid''"
  "dump_required child" "dump_default child = Inr PMissing"
  by (simp_all add: child_def NestedField_def Field_def dump_default_def)

lemma child_dump_empty:
  "call_method child ''format'' (PDict []) =
     Inl (ValidationError,
          PResult DumpResult (PDict []) (PDict [(PStr ''a'', required_error)]) (PDict []))"
  using nested_dump_raises [OF dump_inner_empty, of "''child''" "''kid''"]
  by (simp add: child_def result_val_def)


text \<open>
  C2 as stated fails: the nested field \<open>child\<close> is dumped from the attribute \<open>child\<close> (its
  source) to the key \<open>kid\<close> (its target). When the inner schema fails, its partial result
  lands in \<open>valid_data\<close> under the target \<open>kid\<close>, not under the source \<open>child\<close> as the
  error and the invalid data do.
\<close>

theorem raised_error_is_collected_counterexample:
  "dump outer_schema (PDict [(PStr ''child'', PDict [])]) None None =
     Inr \<lparr> result_cls = DumpResult,
           content = PDict [(PStr ''kid'', PDict [])],
           errors = PDict [(PStr ''child'', PDict [(PStr ''a'', required_error)])],
           invalid_data = PDict [(PStr ''child'', PDict [])] \<rparr>"
proof -
  let ?d = "PDict [(PStr ''child'', PDict [])]"
  have raw: "raw_value_of True get_item ?d child = Inr (PDict [])"
    by (simp add: raw_value_of_def get_item_def field_source_def field_default_def child_simps)
  have step: "process_field True ''format'' get_item ?d child ([], [], []) =
      Inr (([(PStr ''kid'', PDict [])],
            [(PStr ''child'', PDict [(PStr ''a'', required_error)])],
            [(PStr ''child'', PDict [])]), True)"
    by (simp add: process_field_def raw child_dump_empty child_simps collect_error_def
        field_source_def field_target_def field_required_def dict_set_def Let_def)
  have one: "process_one outer_schema ''dump'' ?d True =
      Inr (PDict [(PStr ''kid'', PDict [])],
           PDict [(PStr ''child'', PDict [(PStr ''a'', required_error)])],
           PDict [(PStr ''child'', PDict [])])"
    by (simp add: process_one_def outer_schema_def instance_of_simps assign_attr_or_item_getter_def
        is_mapping_def BaseCatalyst_Options_def step)
  have h: "hooks outer_schema = base_hooks"
    by (simp add: outer_schema_def instance_of_simps)
  have o: "opts outer_schema = BaseCatalyst_Options"
    by (simp add: outer_schema_def instance_of_simps)
  from dump_base [OF h, of ?d None _ _ _ None] one show ?thesis
    by (simp add: o opts_get_def BaseCatalyst_Options_def)
qed

theorem raised_error_is_collected_witness:
  "raw_value_of True get_item (PDict [(PStr ''child'', PDict [])]) child = Inr (PDict []) \<and>
   call_method child ''format'' (PDict []) =
     Inl (ValidationError,
          PResult DumpResult (PDict []) (PDict [(PStr ''a'', required_error)]) (PDict [])) \<and>
   process_field True ''format'' get_item (PDict [(PStr ''child'', PDict [])]) child ([], [], []) =
     Inr (([(PStr ''kid'', PDict [])],
           [(PStr ''child'', PDict [(PStr ''a'', required_error)])],
           [(PStr ''child'', PDict [])]), True) \<and>
   raw_value_of False get_item (PDict [(PStr ''note'', PInt 1)]) lenient = Inr (PInt 1) \<and>
   call_method lenient ''load'' (PInt 1) = Inl (OtherError ''ParseError'', PInt 1) \<and>
   process_field False ''load'' get_item (PDict [(PStr ''note'', PInt 1)]) lenient ([], [], []) =
     Inr (([], [(PStr ''note'', PExc (OtherError ''ParseError'') (PInt 1))],
               [(PStr ''note'', PInt 1)]), True)"
proof -
  let ?d = "PDict [(PStr ''child'', PDict [])]" and ?n = "PDict [(PStr ''note'', PInt 1)]"
  have raw: "raw_value_of True get_item ?d child = Inr (PDict [])"
    by (simp add: raw_value_of_def get_item_def field_source_def field_default_def child_simps)
  have ne: "PDict [] \<noteq> PMissing" by simp
  have raw2: "raw_value_of False get_item ?n lenient = Inr (PInt 1)"
    by (simp add: raw_value_of_def get_item_def field_source_def field_default_def
        load_default_def lenient_def Field_def)
  have ne2: "PInt 1 \<noteq> PMissing" by simp
  have c2: "call_method lenient ''load'' (PInt 1) = Inl (OtherError ''ParseError'', PInt 1)"
    by (simp add: call_method_def field_load_def field_parse_def lenient_def Field_def failing_def)
  have k2: "key lenient = ''note''" by (simp add: lenient_def Field_def)
  from raised_error_is_collected [OF raw ne child_dump_empty, of "[]" "[]" "[]"]
    raised_error_is_collected [OF raw2 ne2 c2, of "[]" "[]" "[]"] raw raw2 c2 child_dump_empty
  show ?thesis
    by (simp add: child_simps k2 dict_set_def exc_val_def)
qed

section \<open>Results of a load\<close>


lemma load_result_class:
  assumes "process_flow c ''load'' many data re ae = Inr r"
  shows "result_cls r = LoadResult"
  using assms
  by (auto simp add: process_flow_def flow_body_def Let_def split: if_splits prod.splits sum.splits)

lemma load_result_valid_data:
  assumes "process_flow c ''load'' many data re ae = Inr r"
  shows "get_valid_data r = Inl (AttributeError, PStr ''valid_data'')"
    and "get_data r = Inr (content r)"
  using load_result_class [OF assms] by (simp_all add: get_valid_data_def get_data_def)

text \<open>A batch load whose first item's flow returns raises at \<^verbatim>\<open>result.valid_data\<close>.\<close>

lemma process_many_load_raises:
  assumes "process_flow c ''load'' False item (Some False) (Some all_errs) = Inr r"
  shows "process_many c ''load'' (PList (item # items)) all_errs =
           Inl (AttributeError, PStr ''valid_data'')"
  using assms load_result_valid_data(1) [OF assms]
  by (simp add: process_many_def iter_items_def process_flow_one_def process_flow_def)

lemma side_effect_base_many:
  assumes "hooks c = base_hooks"
  shows "side_effect c ''pre_load_many'' data = (data, PNone, PNone)"
    and "side_effect c ''post_load_many'' data = (data, PNone, PNone)"
    and "side_effect c ''pre_dump_many'' data = (data, PNone, PNone)"
    and "side_effect c ''post_dump_many'' data = (data, PNone, PNone)"
  using assms by (simp_all add: side_effect_def no_processing_def base_hooks_def)

lemma load_required_a_present:
  "process_flow (instance_of [(''a'', required_a)]) ''load'' False (PDict [(PStr ''a'', PInt 1)])
     (Some False) (Some ae) =
     Inr \<lparr> result_cls = LoadResult, content = PDict [(PStr ''a'', PInt 1)],
           errors = PNone, invalid_data = PNone \<rparr>"
  by (simp add: schema_defs flow_defs field_defs required_a_def required_error_def)

text \<open>The sibling path: a batch dump of the same items keys the error by the index 1.\<close>

lemma dump_many_keyed_by_index:
  "dump_many (instance_of [(''a'', required_a)])
       (PList [PDict [(PStr ''a'', PInt 1)], PDict []]) None None =
     Inr \<lparr> result_cls = DumpResult,
           content = PList [PDict [(PStr ''a'', PInt 1)], PDict []],
           errors = PDict [(PInt 1, PDict [(PStr ''a'', required_error)])],
           invalid_data = PDict [(PInt 1, PDict [])] \<rparr>"
  by (simp add: schema_defs flow_defs field_defs required_a_def required_error_def
      process_many_def iter_items_def process_flow_one_def get_valid_data_def)

text \<open>
  C5 is not what the code does. \<^verbatim>\<open>_process_many\<close> reads \<^verbatim>\<open>result.valid_data\<close> off the
  result of every item, and the \<^verbatim>\<open>LoadResult\<close> of \<^verbatim>\<open>utils.py\<close> stores its first
  argument as \<open>data\<close>: the batch load of the spec's own example,
  \<^verbatim>\<open>load_many([{"a": 1}, {}])\<close> against a schema requiring \<open>a\<close>, raises \<open>AttributeError\<close>
  at item 0 and returns no result at all.
\<close>

theorem load_many_raises:
  "load_many (instance_of [(''a'', required_a)])
       (PList [PDict [(PStr ''a'', PInt 1)], PDict []]) None None =
     Inl (AttributeError, PStr ''valid_data'')"
  using process_many_load_raises [OF load_required_a_present, where items = "[PDict []]" and all_errs = True]
  by (simp add: load_many_def process_flow_def flow_body_def
      side_effect_base_many [OF instance_of_simps(1)] instance_of_simps(6)
      opts_get_def BaseCatalyst_Options_def)

text \<open>Dumping and loading a valid input of the plain schema.\<close>

lemma dump_plain:
  "dump plain_schema (PDict [(PStr ''count'', PInt 3), (PStr ''title'', PStr ''hi'')]) None None =
     Inr \<lparr> result_cls = DumpResult,
           content = PDict [(PStr ''n'', PInt 3), (PStr ''title'', PStr ''hi'')],
           errors = PNone, invalid_data = PNone \<rparr>"
  by (simp add: plain_schema_def counted_def title_def positive_def schema_defs flow_defs
      field_defs)

lemma load_plain:
  "load plain_schema (PDict [(PStr ''n'', PInt 3), (PStr ''title'', PStr ''hi'')]) None None =
     Inr \<lparr> result_cls = LoadResult,
           content = PDict [(PStr ''count'', PInt 3), (PStr ''title'', PStr ''hi'')],
           errors = PNone, invalid_data = PNone \<rparr>"
  by (simp add: plain_schema_def counted_def title_def positive_def schema_defs flow_defs
      field_defs)

text \<open>
  C8 is not what the code does. With \<open>x = {count: 3, title: hi}\<close>, a valid input of a
  schema of two identity fields, \<^verbatim>\<open>schema.dump(x).valid_data\<close> is \<open>{n: 3, title: hi}\<close> and
  loading it returns a \<^verbatim>\<open>LoadResult\<close> that holds \<open>x\<close>, but under the attribute \<open>data\<close>:
  \<^verbatim>\<open>schema.load(schema.dump(x).valid_data).valid_data\<close> raises \<open>AttributeError\<close>.
\<close>

theorem round_trip_raises:
  "(case dump plain_schema (PDict [(PStr ''count'', PInt 3), (PStr ''title'', PStr ''hi'')])
           None None of
      Inl e \<Rightarrow> None
    | Inr rd \<Rightarrow>
        (case get_valid_data rd of
           Inl e \<Rightarrow> None
         | Inr y \<Rightarrow>
             (case load plain_schema y None None of
                Inl e \<Rightarrow> None
              | Inr rl \<Rightarrow> Some (y, get_valid_data rl, get_data rl)))) =
   Some (PDict [(PStr ''n'', PInt 3), (PStr ''title'', PStr ''hi'')],
         Inl (AttributeError, PStr ''valid_data''),
         Inr (PDict [(PStr ''count'', PInt 3), (PStr ''title'', PStr ''hi'')]))"
  by (simp add: dump_plain load_plain get_valid_data_def get_data_def)

end
